theory Spec2Isabelle
  imports Complex_Main
begin

section \<open>The carousel of src/app/components/TattooCarousel.tsx\<close>

text \<open>
  JavaScript numbers are modelled as follows: card indices, item counts and the
  result of \<^verbatim>\<open>Math.round\<close> are \<open>int\<close>; pixel offsets, timestamps and
  velocities are \<open>real\<close>, so the rounding of IEEE doubles is not part of the model.
  A comparison of an index with \<^verbatim>\<open>N / 2\<close> is a comparison of reals.
\<close>

subsection \<open>Slot math (lines 123-128)\<close>

definition getSlot :: "int \<Rightarrow> int \<Rightarrow> int \<Rightarrow> int" where
  "getSlot i active N =
     (let d = i - active;
          d = (if real_of_int d > real_of_int N / 2 then d - N else d);
          d = (if real_of_int d < real_of_int (- N) / 2 then d + N else d)
      in d)"

subsection \<open>Index arithmetic\<close>

text \<open>
  The remainder operator \<^verbatim>\<open>%\<close> of JavaScript takes the sign of the dividend.
  The divisor is always the item count \<open>N\<close>, which line 842 keeps at 1 or more
  (\<^verbatim>\<open>a % 0\<close> is NaN in JavaScript and is not modelled).
\<close>

definition js_rem :: "int \<Rightarrow> int \<Rightarrow> int" where
  "js_rem a b = sgn a * (\<bar>a\<bar> mod \<bar>b\<bar>)"

text \<open>Line 842: \<^verbatim>\<open>const N = items.length > 0 ? items.length : 1\<close>.\<close>

definition itemCount :: "'a list \<Rightarrow> int" where
  "itemCount items = (if length items > 0 then int (length items) else 1)"

text \<open>The updater of lines 650, 658 and 726: \<^verbatim>\<open>((next % N) + N) % N\<close>.\<close>

definition wrapIndex :: "int \<Rightarrow> int \<Rightarrow> int" where
  "wrapIndex n N = js_rem (js_rem n N + N) N"

text \<open>The updaters of \<^verbatim>\<open>next\<close> and \<^verbatim>\<open>prev\<close> (lines 877-878).\<close>

definition nextIndex :: "int \<Rightarrow> int \<Rightarrow> int" where
  "nextIndex N p = js_rem (p + 1) N"

definition prevIndex :: "int \<Rightarrow> int \<Rightarrow> int" where
  "prevIndex N p = js_rem (p - 1 + N) N"

subsection \<open>Layout (\<^verbatim>\<open>useLayoutConfig\<close>, lines 56-63)\<close>

datatype breakpoint = Mobile | Tablet | Desktop

record layout =
  cardW :: real
  cardH :: real
  sideOffset :: real
  farOffset :: real
  sideScale :: real
  activeScale :: real
  hiddenScale :: real

fun useLayoutConfig :: "breakpoint \<Rightarrow> layout" where
  "useLayoutConfig Mobile =
     \<lparr>cardW = 240, cardH = 300, sideOffset = 220, farOffset = 400,
      sideScale = 0.45, activeScale = 1, hiddenScale = 0.35\<rparr>"
| "useLayoutConfig Tablet =
     \<lparr>cardW = 300, cardH = 370, sideOffset = 270, farOffset = 500,
      sideScale = 0.5, activeScale = 1, hiddenScale = 0.38\<rparr>"
| "useLayoutConfig Desktop =
     \<lparr>cardW = 370, cardH = 440, sideOffset = 340, farOffset = 640,
      sideScale = 0.514, activeScale = 1, hiddenScale = 0.4\<rparr>"

subsection \<open>Drag and momentum (\<^verbatim>\<open>useDragCarousel\<close>, lines 614-746)\<close>

text \<open>
  The state of the hook together with the active index it updates. \<open>dragX\<close> stands
  for the state variable and for \<^verbatim>\<open>dragXRef.current\<close>, which the effect of line 630
  copies from it after every change. \<open>momentum\<close> is the pending animation frame:
  \<open>Some (vel, offset)\<close> holds the two variables that the closure \<^verbatim>\<open>tick\<close> keeps
  between frames, \<open>None\<close> says that no frame is requested (\<^verbatim>\<open>rafId\<close>).
\<close>

record carousel =
  activeIndex :: int
  dragX :: real
  dragging :: bool
  captured :: bool
  startX :: real
  lastX :: real
  lastTime :: real
  velocity :: real
  momentum :: "(real \<times> real) option"

definition setDragX :: "real \<Rightarrow> carousel \<Rightarrow> carousel" where
  "setDragX v s = s\<lparr>dragX := v\<rparr>"

definition cancelMomentum :: "carousel \<Rightarrow> carousel" where
  "cancelMomentum s = s\<lparr>momentum := None\<rparr>"

text \<open>
  \<^verbatim>\<open>setActiveIndex\<close> with an updater. When the index changes, the component renders
  again and the effect of line 735 runs: \<^verbatim>\<open>setDragX(0); cancelMomentum()\<close>.
\<close>

definition setActiveIndex :: "(int \<Rightarrow> int) \<Rightarrow> carousel \<Rightarrow> carousel" where
  "setActiveIndex f s =
     (let n = f (activeIndex s)
      in if n = activeIndex s then s
         else cancelMomentum (setDragX 0 (s\<lparr>activeIndex := n\<rparr>)))"

text \<open>\<^verbatim>\<open>Math.round\<close>: the nearest integer, a half rounded up.\<close>

definition Math_round :: "real \<Rightarrow> int" where
  "Math_round x = \<lfloor>x + 1 / 2\<rfloor>"

definition friction :: real where
  "friction = 0.93"

text \<open>
  \<^verbatim>\<open>startMomentum\<close> (lines 637-670) sets \<^verbatim>\<open>vel\<close> and \<^verbatim>\<open>offset\<close> and requests the
  first frame; \<^verbatim>\<open>tick\<close> is the body of one frame. \<open>sideOff\<close> is the \<^verbatim>\<open>sideOffset\<close>
  of the layout, 220, 270 or 340; a division by a \<open>sideOff\<close> of 0 is not modelled.
\<close>

definition startMomentum :: "real \<Rightarrow> carousel \<Rightarrow> carousel" where
  "startMomentum initialVel s = s\<lparr>momentum := Some (initialVel, dragX s)\<rparr>"

definition tick :: "real \<Rightarrow> int \<Rightarrow> real \<times> real \<Rightarrow> carousel \<Rightarrow> carousel" where
  "tick sideOff N p s =
     (let vel = fst p * friction;
          offset = snd p + vel
      in if \<bar>offset\<bar> > sideOff * 0.35 then
           (let steps = Math_round (- offset / sideOff);
                s1 = (if steps \<noteq> 0
                      then setActiveIndex (\<lambda>prev. wrapIndex (prev + steps) N) s else s)
            in (setDragX 0 s1)\<lparr>velocity := 0, momentum := None\<rparr>)
         else if \<bar>vel\<bar> < 0.4 then
           (let s1 = (if \<bar>offset\<bar> > sideOff * 0.25
                      then setActiveIndex
                             (\<lambda>prev. wrapIndex (prev + (if offset < 0 then 1 else - 1)) N) s
                      else s)
            in (setDragX 0 s1)\<lparr>momentum := None\<rparr>)
         else (setDragX offset s)\<lparr>momentum := Some (vel, offset)\<rparr>)"

text \<open>
  The program computes in IEEE doubles: every decimal literal and the result of every
  multiplication, addition and division is rounded to the nearest double, while
  \<^verbatim>\<open>Math.abs\<close>, the comparisons and \<^verbatim>\<open>Math.round\<close> are exact. \<open>tick\<close> above leaves
  the rounding out. \<open>tickRounded rnd\<close> is the same body with the rounding \<open>rnd\<close>
  written at every literal and operation; its numbers stand for the doubles of the
  program. \<open>binary64\<close> is the rounding of the program: to the nearest double, ties to
  the even significand; a double has a significand of 53 bits and an exponent of
  \<open>- 1022\<close> or more, below which the doubles are evenly spaced (an overflow to
  \<^verbatim>\<open>Infinity\<close> is not modelled).
\<close>

definition roundTiesToEven :: "real \<Rightarrow> int" where
  "roundTiesToEven x =
     (let f = \<lfloor>x\<rfloor>
      in if x - of_int f < 1 / 2 then f
         else if x - of_int f > 1 / 2 then f + 1
         else if even f then f else f + 1)"

definition pow2 :: "int \<Rightarrow> real" where
  "pow2 k = (if 0 \<le> k then 2 ^ nat k else 1 / 2 ^ nat (- k))"

definition binary64 :: "real \<Rightarrow> real" where
  "binary64 x =
     (if x = 0 then 0
      else
        (let e = max \<lfloor>log 2 \<bar>x\<bar>\<rfloor> (- 1022);
             u = pow2 (e - 52)
         in u * of_int (roundTiesToEven (x / u))))"

definition tickRounded ::
  "(real \<Rightarrow> real) \<Rightarrow> real \<Rightarrow> int \<Rightarrow> real \<times> real \<Rightarrow> carousel \<Rightarrow> carousel" where
  "tickRounded rnd sideOff N p s =
     (let vel = rnd (fst p * rnd 0.93);
          offset = rnd (snd p + vel)
      in if \<bar>offset\<bar> > rnd (sideOff * rnd 0.35) then
           (let steps = Math_round (rnd (- offset / sideOff));
                s1 = (if steps \<noteq> 0
                      then setActiveIndex (\<lambda>prev. wrapIndex (prev + steps) N) s else s)
            in (setDragX 0 s1)\<lparr>velocity := 0, momentum := None\<rparr>)
         else if \<bar>vel\<bar> < rnd 0.4 then
           (let s1 = (if \<bar>offset\<bar> > rnd (sideOff * rnd 0.25)
                      then setActiveIndex
                             (\<lambda>prev. wrapIndex (prev + (if offset < 0 then 1 else - 1)) N) s
                      else s)
            in (setDragX 0 s1)\<lparr>momentum := None\<rparr>)
         else (setDragX offset s)\<lparr>momentum := Some (vel, offset)\<rparr>)"

text \<open>An animation frame runs the requested \<^verbatim>\<open>tick\<close>, if there is one.\<close>

definition handleFrame :: "real \<Rightarrow> int \<Rightarrow> carousel \<Rightarrow> carousel" where
  "handleFrame sideOff N s =
     (case momentum s of None \<Rightarrow> s | Some p \<Rightarrow> tick sideOff N p s)"

text \<open>
  \<^verbatim>\<open>handlePointerDown\<close> (lines 672-684): \<open>onControl\<close> says that the target is inside
  a button or a link, \<open>button\<close> is \<^verbatim>\<open>e.button\<close>, \<open>x\<close> is \<^verbatim>\<open>e.clientX\<close> and \<open>now\<close>
  is \<^verbatim>\<open>performance.now()\<close>.
\<close>

definition handlePointerDown :: "bool \<Rightarrow> int \<Rightarrow> real \<Rightarrow> real \<Rightarrow> carousel \<Rightarrow> carousel" where
  "handlePointerDown onControl button x now s =
     (if onControl then s
      else if button \<noteq> 0 then s
      else (cancelMomentum s)\<lparr>dragging := True, captured := False, startX := x, lastX := x,
             lastTime := now, velocity := 0\<rparr>)"

text \<open>\<^verbatim>\<open>handlePointerMove\<close> (lines 686-706).\<close>

definition handlePointerMove :: "real \<Rightarrow> real \<Rightarrow> carousel \<Rightarrow> carousel" where
  "handlePointerMove x now s =
     (if \<not> dragging s then s
      else
        (let totalDX = x - startX s;
             s1 = (if \<not> captured s \<and> \<bar>totalDX\<bar> > 5 then s\<lparr>captured := True\<rparr> else s)
         in if \<not> captured s1 then s1
            else
              (let dt = now - lastTime s1;
                   dx = x - lastX s1;
                   s2 = (if dt > 0 then s1\<lparr>velocity := (dx / dt) * 16\<rparr> else s1)
               in setDragX totalDX (s2\<lparr>lastX := x, lastTime := now\<rparr>))))"

text \<open>\<^verbatim>\<open>handlePointerUp\<close> (lines 708-732), also the handler of a pointer cancel.\<close>

definition handlePointerUp :: "real \<Rightarrow> int \<Rightarrow> real \<Rightarrow> carousel \<Rightarrow> carousel" where
  "handlePointerUp sideOff N x s =
     (if \<not> dragging s then s
      else
        (let s1 = s\<lparr>dragging := False\<rparr>
         in if \<not> captured s1 then setDragX 0 s1
            else
              (let totalDX = x - startX s1;
                   vel = velocity s1
               in if \<bar>vel\<bar> > 2 then startMomentum vel s1
                  else
                    (let s2 = (if \<bar>totalDX\<bar> > sideOff * 0.25
                               then setActiveIndex
                                      (\<lambda>prev. wrapIndex (prev + (if totalDX < 0 then 1 else - 1)) N)
                                      s1
                               else s1)
                     in setDragX 0 s2))))"

text \<open>
  The loop of \<^verbatim>\<open>tick\<close>: every frame requests the next one until a branch of
  \<^verbatim>\<open>tick\<close> returns without doing so. \<open>frames k\<close> lets \<open>k\<close> animation frames pass;
  \<open>coast\<close> runs the loop to its end. The loop ends because the velocity shrinks
  by the factor \<open>friction\<close> in every frame and a frame with a velocity below 0.4
  requests no other.
\<close>

fun frames :: "real \<Rightarrow> int \<Rightarrow> nat \<Rightarrow> carousel \<Rightarrow> carousel" where
  "frames sideOff N 0 s = s"
| "frames sideOff N (Suc k) s = frames sideOff N k (handleFrame sideOff N s)"

function coast :: "real \<Rightarrow> int \<Rightarrow> carousel \<Rightarrow> carousel" where
  "coast sideOff N s =
     (case momentum s of None \<Rightarrow> s | Some p \<Rightarrow> coast sideOff N (tick sideOff N p s))"
  by pat_completeness auto
termination
proof (relation "measure (\<lambda>(sideOff, N, s).
          case momentum s of None \<Rightarrow> 0
          | Some p \<Rightarrow> Suc (LEAST k. \<bar>fst p\<bar> * friction ^ k < 0.4))")
  show "wf (measure (\<lambda>(sideOff, N, s).
          case momentum s of None \<Rightarrow> 0
          | Some p \<Rightarrow> Suc (LEAST k. \<bar>fst p\<bar> * friction ^ k < 0.4)))"
    by simp
next
  fix sideOff :: real and N :: int and s :: carousel and p :: "real \<times> real"
  assume p: "momentum s = Some p"
  let ?m = "\<lambda>v::real. LEAST k. \<bar>v\<bar> * friction ^ k < 0.4"
  show "((sideOff, N, tick sideOff N p s), (sideOff, N, s))
        \<in> measure (\<lambda>(sideOff, N, s).
          case momentum s of None \<Rightarrow> 0
          | Some p \<Rightarrow> Suc (LEAST k. \<bar>fst p\<bar> * friction ^ k < 0.4))"
  proof (cases "momentum (tick sideOff N p s)")
    case None
    with p show ?thesis by simp
  next
    case (Some q)
    then have q: "fst q = fst p * friction" and big: "\<not> \<bar>fst p * friction\<bar> < 0.4"
      by (auto simp add: tick_def Let_def setDragX_def split: if_splits)
    have "\<exists>k. \<bar>fst p\<bar> * friction ^ k < 0.4"
    proof (cases "fst p = 0")
      case True
      then show ?thesis by simp
    next
      case False
      then have "0 < 0.4 / \<bar>fst p\<bar>" by simp
      then obtain k where "friction ^ k < 0.4 / \<bar>fst p\<bar>"
        using real_arch_pow_inv [of "0.4 / \<bar>fst p\<bar>" friction] by (auto simp add: friction_def)
      with False have "\<bar>fst p\<bar> * friction ^ k < 0.4"
        by (simp add: field_simps)
      then show ?thesis ..
    qed
    then have least: "\<bar>fst p\<bar> * friction ^ ?m (fst p) < 0.4"
      by (rule LeastI_ex)
    have "?m (fst p) \<noteq> 0"
    proof
      assume "?m (fst p) = 0"
      with least have "\<bar>fst p\<bar> < 0.4" by simp
      then have "\<bar>fst p * friction\<bar> < 0.4"
        by (simp add: friction_def abs_mult)
      with big show False by simp
    qed
    then obtain j where j: "?m (fst p) = Suc j" by (cases "?m (fst p)") auto
    with least have "\<bar>fst q\<bar> * friction ^ j < 0.4"
      by (simp add: q abs_mult friction_def mult.assoc)
    then have "?m (fst q) \<le> j" by (rule Least_le)
    with j p Some show ?thesis by simp
  qed
qed

subsection \<open>The controller (\<^verbatim>\<open>TattooCarousel\<close>, lines 839-892 and 1133-1167)\<close>

text \<open>
  What can happen to the carousel: the three pointer events, an animation frame,
  \<^verbatim>\<open>next\<close> and \<^verbatim>\<open>prev\<close> (arrow keys, arrow buttons, a click on a side card) and a
  click on the pagination button of card \<open>i\<close>.
\<close>

datatype event =
    PointerDown bool int real real
  | PointerMove real real
  | PointerUp real
  | Frame
  | Next
  | Prev
  | Goto int

fun step :: "real \<Rightarrow> int \<Rightarrow> carousel \<Rightarrow> event \<Rightarrow> carousel" where
  "step sideOff N s (PointerDown onControl button x now) = handlePointerDown onControl button x now s"
| "step sideOff N s (PointerMove x now) = handlePointerMove x now s"
| "step sideOff N s (PointerUp x) = handlePointerUp sideOff N x s"
| "step sideOff N s Frame = handleFrame sideOff N s"
| "step sideOff N s Next = setActiveIndex (nextIndex N) s"
| "step sideOff N s Prev = setActiveIndex (prevIndex N) s"
| "step sideOff N s (Goto i) = setActiveIndex (\<lambda>_. i) s"

definition run :: "real \<Rightarrow> int \<Rightarrow> carousel \<Rightarrow> event list \<Rightarrow> carousel" where
  "run sideOff N s evs = foldl (step sideOff N) s evs"

text \<open>
  The pagination buttons are rendered from the list of cards (line 1165), so the
  index of a click on one is an index of the list, below the item count.
\<close>

fun rendered :: "int \<Rightarrow> event \<Rightarrow> bool" where
  "rendered N (Goto i) = (0 \<le> i \<and> i < N)"
| "rendered N _ = True"

text \<open>The state of the first render: \<^verbatim>\<open>useState(0)\<close> and the initial refs.\<close>

definition initial :: carousel where
  "initial = \<lparr>activeIndex = 0, dragX = 0, dragging = False, captured = False, startX = 0,
              lastX = 0, lastTime = 0, velocity = 0, momentum = None\<rparr>"


subsection \<open>The render of the cards and of the background (lines 1133-1134 and 1219-1229)\<close>

text \<open>\<^verbatim>\<open>CardItem\<close> of the configuration context; \<open>cardId\<close> is its field \<^verbatim>\<open>id\<close>.\<close>

record card_item =
  cardId :: int
  title :: string
  description :: string
  cta :: string
  videoId :: string
  bg :: string

datatype js_error = TypeError

text \<open>The slots handed to the cards: \<^verbatim>\<open>items.map((item, i) => getSlot(i, activeIndex, N))\<close>.\<close>

definition renderSlots :: "card_item list \<Rightarrow> int \<Rightarrow> int list" where
  "renderSlots items active =
     map (\<lambda>i. getSlot (int i) active (itemCount items)) [0..<length items]"

text \<open>
  The background image, \<^verbatim>\<open>`url(${items[activeIndex].bg})`\<close>: out of range
  \<^verbatim>\<open>items[activeIndex]\<close> is \<^verbatim>\<open>undefined\<close>, and reading \<^verbatim>\<open>.bg\<close> of it throws a
  \<^verbatim>\<open>TypeError\<close>.
\<close>

definition renderBackground :: "card_item list \<Rightarrow> int \<Rightarrow> js_error + string" where
  "renderBackground items active =
     (if 0 \<le> active \<and> active < int (length items)
      then Inr (''url('' @ bg (items ! nat active) @ '')'')
      else Inl TypeError)"

text \<open>The two parts of the render that read the list, in the order of the source.\<close>

definition renderCarousel :: "card_item list \<Rightarrow> int \<Rightarrow> js_error + (int list \<times> string)" where
  "renderCarousel items active =
     (let slots = renderSlots items active
      in case renderBackground items active of
           Inl e \<Rightarrow> Inl e
         | Inr background \<Rightarrow> Inr (slots, background))"

subsection \<open>The theme transition overlay (\<^verbatim>\<open>ThemeTransitionOverlay\<close>, lines 779-794)\<close>

text \<open>
  Time is counted in milliseconds from the trigger. A timeout is the time at which it
  is due, and it runs at that time. The state holds the ref \<^verbatim>\<open>hasFlipped\<close>, the two
  timeouts of the effect, the clock, the theme mode that \<^verbatim>\<open>setTheme\<close> stores, and
  the times at which \<^verbatim>\<open>setTheme\<close> and \<^verbatim>\<open>onComplete\<close> were called.
\<close>

datatype theme = Light | Dark

record overlay =
  mounted :: bool
  hasFlipped :: bool
  flipTimer :: "nat option"
  cleanupTimer :: "nat option"
  clock :: nat
  persisted :: theme
  flippedAt :: "nat list"
  completedAt :: "nat list"

text \<open>The body of the effect (lines 789-792) and the function it returns (line 793).\<close>

definition overlayEffect :: "overlay \<Rightarrow> overlay" where
  "overlayEffect s = s\<lparr>flipTimer := Some (clock s + 350), cleanupTimer := Some (clock s + 1600)\<rparr>"

definition overlayCleanup :: "overlay \<Rightarrow> overlay" where
  "overlayCleanup s = s\<lparr>flipTimer := None, cleanupTimer := None\<rparr>"

text \<open>The callback of \<^verbatim>\<open>flipTimer\<close> (line 790), run at time \<open>t\<close>.\<close>

definition flipCallback :: "theme \<Rightarrow> nat \<Rightarrow> overlay \<Rightarrow> overlay" where
  "flipCallback targetTheme t s =
     (if \<not> hasFlipped s
      then s\<lparr>hasFlipped := True, persisted := targetTheme, flippedAt := flippedAt s @ [t]\<rparr>
      else s)"

text \<open>
  The overlay leaves the tree: React runs the cleanup of the effect. \<^verbatim>\<open>onComplete\<close>
  is \<^verbatim>\<open>() => setThemeTransition(null)\<close> (line 1246), which removes the overlay.
\<close>

definition unmount :: "overlay \<Rightarrow> overlay" where
  "unmount s = (overlayCleanup s)\<lparr>mounted := False\<rparr>"

definition onComplete :: "nat \<Rightarrow> overlay \<Rightarrow> overlay" where
  "onComplete t s = unmount (s\<lparr>completedAt := completedAt s @ [t]\<rparr>)"

text \<open>
  The parent renders again. Its \<^verbatim>\<open>onComplete\<close> is a new function on every render
  and is a dependency of the effect (line 794), so React runs the cleanup and then the
  effect again; the ref keeps its value.
\<close>

definition rerender :: "overlay \<Rightarrow> overlay" where
  "rerender s = (if mounted s then overlayEffect (overlayCleanup s) else s)"

text \<open>
  \<open>d\<close> milliseconds pass: the timeouts that fall due run, the flip before the
  completion (the effect sets both at once, 350 and 1600 ms ahead).
\<close>

definition elapse :: "theme \<Rightarrow> nat \<Rightarrow> overlay \<Rightarrow> overlay" where
  "elapse targetTheme d s =
     (let t = clock s + d;
          s1 = (case flipTimer s of
                  None \<Rightarrow> s
                | Some due \<Rightarrow>
                    if due \<le> t then flipCallback targetTheme due (s\<lparr>flipTimer := None\<rparr>) else s);
          s2 = (case cleanupTimer s1 of
                  None \<Rightarrow> s1
                | Some due \<Rightarrow>
                    if due \<le> t then onComplete due (s1\<lparr>cleanupTimer := None\<rparr>) else s1)
      in s2\<lparr>clock := t\<rparr>)"

datatype overlay_event = Elapse nat | Rerender | Unmount

fun overlayStep :: "theme \<Rightarrow> overlay \<Rightarrow> overlay_event \<Rightarrow> overlay" where
  "overlayStep targetTheme s (Elapse d) = elapse targetTheme d s"
| "overlayStep targetTheme s Rerender = rerender s"
| "overlayStep targetTheme s Unmount = unmount s"

definition overlayRun :: "theme \<Rightarrow> overlay \<Rightarrow> overlay_event list \<Rightarrow> overlay" where
  "overlayRun targetTheme s evs = foldl (overlayStep targetTheme) s evs"

text \<open>
  The trigger (\<^verbatim>\<open>triggerThemeSwitch\<close>, lines 869-875): the target is the mode that is
  not the current one, the overlay mounts with a fresh ref and its effect runs.
\<close>

definition targetOf :: "theme \<Rightarrow> theme" where
  "targetOf current = (case current of Dark \<Rightarrow> Light | Light \<Rightarrow> Dark)"

definition mount :: "theme \<Rightarrow> overlay" where
  "mount current =
     overlayEffect \<lparr>mounted = True, hasFlipped = False, flipTimer = None, cleanupTimer = None,
                    clock = 0, persisted = current, flippedAt = [], completedAt = []\<rparr>"

text \<open>Two invariants of the overlay: at most one flip so far, and an overlay that is gone.\<close>

definition flipped_once :: "overlay \<Rightarrow> bool" where
  "flipped_once s = (if hasFlipped s then length (flippedAt s) = 1 else flippedAt s = [])"

definition torn_down :: "overlay \<Rightarrow> bool" where
  "torn_down s = (\<not> mounted s \<and> flipTimer s = None \<and> cleanupTimer s = None)"

section \<open>Properties\<close>

subsection \<open>Slot math\<close>

lemma getSlot_cases:
  "getSlot i a N =
     (if 2 * (i - a) > N then (if 2 * (i - a - N) < - N then i - a else i - a - N)
      else if 2 * (i - a) < - N then i - a + N else i - a)"
proof -
  have gt: "(real_of_int d > real_of_int N / 2) = (2 * d > N)" for d
    by (simp add: field_simps) linarith
  have lt: "(real_of_int d < real_of_int (- N) / 2) = (2 * d < - N)" for d
    by (simp add: field_simps) linarith
  show ?thesis
    unfolding getSlot_def Let_def gt lt by simp
qed

lemma getSlot_cong_mod:
  "(getSlot i a N - (i - a)) mod N = 0"
  by (simp add: getSlot_cases)

text \<open>
  C1 as the code has it: the two comparisons of \<^verbatim>\<open>getSlot\<close> are both strict, so the
  slot lies in the closed interval from \<open>- \<lfloor>N/2\<rfloor>\<close> to \<open>\<lfloor>N/2\<rfloor>\<close>; for an odd count
  that is the interval of the specification, for an even count the value \<open>- N/2\<close>
  is reached as well. The slot of the active card is 0.
\<close>

theorem getSlot_range:
  assumes "1 \<le> N" and "0 \<le> i" and "i < N" and "0 \<le> a" and "a < N"
  shows "- (N div 2) \<le> getSlot i a N \<and> getSlot i a N \<le> N div 2 \<and> getSlot a a N = 0"
  using assms by (simp add: getSlot_cases) linarith

theorem getSlot_range_witness:
  "(1::int) \<le> 4 \<and> - (4 div 2) \<le> getSlot 0 2 4 \<and> getSlot 0 2 4 \<le> 4 div 2 \<and> getSlot 2 2 4 = 0"
  using getSlot_range [of 4 0 2] by simp

text \<open>
  C1 as stated fails for two cards: with card 1 active, card 0 sits in slot \<open>-1\<close>,
  which is not above \<open>- \<lceil>2/2\<rceil>\<close>.
\<close>

theorem getSlot_half_open_counterexample:
  "\<not> (- \<lceil>(2::real) / 2\<rceil> < getSlot 0 1 2 \<and> getSlot 0 1 2 \<le> \<lfloor>(2::real) / 2\<rfloor>)"
  by (simp add: getSlot_def)

text \<open>
  C9: for a fixed active card the slots of the cards are pairwise different, and
  slot 0 belongs to the active card alone.
\<close>

theorem getSlot_injective:
  assumes "1 \<le> N" and "0 \<le> a" and "a < N"
  shows "inj_on (\<lambda>i. getSlot i a N) {0..<N} \<and>
         (\<forall>i\<in>{0..<N}. getSlot i a N = 0 \<longleftrightarrow> i = a)"
proof
  show "inj_on (\<lambda>i. getSlot i a N) {0..<N}"
  proof (rule inj_onI)
    fix i j
    assume i: "i \<in> {0..<N}" and j: "j \<in> {0..<N}" and eq: "getSlot i a N = getSlot j a N"
    have "(getSlot i a N - (i - a)) mod N = 0" "(getSlot j a N - (j - a)) mod N = 0"
      by (rule getSlot_cong_mod)+
    then have "N dvd getSlot i a N - (i - a)" "N dvd getSlot j a N - (j - a)"
      by (simp_all add: mod_eq_0_iff_dvd)
    then have "N dvd (getSlot i a N - (i - a)) - (getSlot j a N - (j - a))"
      by (rule dvd_diff)
    with eq have "N dvd j - i" by (simp add: algebra_simps)
    moreover from i j have "\<bar>j - i\<bar> < N" by auto
    ultimately have "j - i = 0"
      using dvd_imp_le_int [of "j - i" N] by auto
    then show "i = j" by simp
  qed
next
  show "\<forall>i\<in>{0..<N}. getSlot i a N = 0 \<longleftrightarrow> i = a"
    using assms by (auto simp add: getSlot_cases split: if_splits)
qed

theorem getSlot_injective_witness:
  "inj_on (\<lambda>i. getSlot i 1 4) {0..<4} \<and> getSlot 1 1 4 = 0 \<and> getSlot 0 1 4 \<noteq> 0 \<and>
   getSlot 2 1 4 \<noteq> 0 \<and> getSlot 3 1 4 \<noteq> 0"
proof -
  have "inj_on (\<lambda>i. getSlot i 1 4) {0..<4} \<and>
        (\<forall>i\<in>{0..<4}. getSlot i 1 4 = 0 \<longleftrightarrow> i = 1)"
    using getSlot_injective [of 4 1] by simp
  then show ?thesis by auto
qed

subsection \<open>Index arithmetic and the index invariant\<close>

lemma js_rem_nonneg: "0 \<le> a \<Longrightarrow> js_rem a b = a mod \<bar>b\<bar>"
  by (cases "a = 0") (simp_all add: js_rem_def)

lemma js_rem_lower: "0 < N \<Longrightarrow> - N < js_rem n N"
proof -
  assume N: "0 < N"
  then have a: "\<bar>n\<bar> mod N < N" and b: "0 \<le> \<bar>n\<bar> mod N" by simp_all
  have "js_rem n N = \<bar>n\<bar> mod N \<or> js_rem n N = - (\<bar>n\<bar> mod N)"
    using N by (cases "n < 0"; cases "n = 0") (simp_all add: js_rem_def)
  then show ?thesis
  proof
    assume "js_rem n N = \<bar>n\<bar> mod N"
    with a b N show ?thesis by linarith
  next
    assume "js_rem n N = - (\<bar>n\<bar> mod N)"
    with a b N show ?thesis by linarith
  qed
qed

lemma js_rem_cong: "0 < N \<Longrightarrow> js_rem n N mod N = n mod N"
proof (cases "n < 0")
  case True
  assume "0 < N"
  with True have "js_rem n N = - ((- n) mod N)" by (simp add: js_rem_def)
  then show ?thesis by (simp add: mod_minus_eq)
next
  case False
  assume "0 < N"
  with False show ?thesis by (simp add: js_rem_nonneg)
qed

lemma wrapIndex_mod: "0 < N \<Longrightarrow> wrapIndex n N = n mod N"
proof -
  assume N: "0 < N"
  then have "0 \<le> js_rem n N + N" using js_rem_lower [of N n] by simp
  then have "wrapIndex n N = (js_rem n N + N) mod N"
    using N by (simp add: wrapIndex_def js_rem_nonneg)
  also have "\<dots> = js_rem n N mod N" by simp
  finally show ?thesis using N by (simp add: js_rem_cong)
qed

lemma nextIndex_mod: "0 < N \<Longrightarrow> 0 \<le> p \<Longrightarrow> nextIndex N p = (p + 1) mod N"
  by (simp add: nextIndex_def js_rem_nonneg)

lemma prevIndex_mod: "0 < N \<Longrightarrow> 0 \<le> p \<Longrightarrow> prevIndex N p = (p - 1) mod N"
  by (simp add: prevIndex_def js_rem_nonneg)

lemma setActiveIndex_index:
  "activeIndex (setActiveIndex f s) = f (activeIndex s)"
  by (simp add: setActiveIndex_def Let_def cancelMomentum_def setDragX_def)

lemma tick_index_range:
  assumes "0 < N" and "0 \<le> activeIndex s" and "activeIndex s < N"
  shows "0 \<le> activeIndex (tick S N p s) \<and> activeIndex (tick S N p s) < N"
  using assms by (simp add: tick_def Let_def setDragX_def setActiveIndex_index wrapIndex_mod)

lemma pointerUp_index_range:
  assumes "0 < N" and "0 \<le> activeIndex s" and "activeIndex s < N"
  shows "0 \<le> activeIndex (handlePointerUp S N x s) \<and> activeIndex (handlePointerUp S N x s) < N"
  using assms
  by (simp add: handlePointerUp_def Let_def setDragX_def startMomentum_def
      setActiveIndex_index wrapIndex_mod)

lemma pointerMove_index: "activeIndex (handlePointerMove x now s) = activeIndex s"
  by (simp add: handlePointerMove_def Let_def setDragX_def)

lemma pointerDown_index: "activeIndex (handlePointerDown c b x now s) = activeIndex s"
  by (simp add: handlePointerDown_def cancelMomentum_def)

lemma step_index_range:
  assumes "0 < N" and "rendered N ev" and "0 \<le> activeIndex s" and "activeIndex s < N"
  shows "0 \<le> activeIndex (step S N s ev) \<and> activeIndex (step S N s ev) < N"
proof (cases ev)
  case Frame
  with assms show ?thesis
    using tick_index_range [of N s] by (simp add: handleFrame_def split: option.split)
next
  case (PointerUp x)
  with assms show ?thesis using pointerUp_index_range [of N s] by simp
qed (use assms in \<open>simp_all add: pointerMove_index pointerDown_index setActiveIndex_index
      nextIndex_mod prevIndex_mod\<close>)

text \<open>
  C2: whatever happens to the carousel (pointer events, animation frames of the
  momentum loop, \<^verbatim>\<open>next\<close>, \<^verbatim>\<open>prev\<close>, clicks on rendered pagination buttons), an
  active index inside \<open>[0, N)\<close> stays inside \<open>[0, N)\<close>.
\<close>

theorem activeIndex_in_range:
  assumes "1 \<le> N" and "0 \<le> activeIndex s" and "activeIndex s < N"
    and "\<forall>ev\<in>set evs. rendered N ev" and "0 < sideOff"
  shows "0 \<le> activeIndex (run sideOff N s evs) \<and> activeIndex (run sideOff N s evs) < N"
  using assms(2-4) unfolding run_def
proof (induction evs arbitrary: s)
  case Nil
  then show ?case by simp
next
  case (Cons ev evs)
  from \<open>1 \<le> N\<close> have N: "0 < N" by simp
  have "0 \<le> activeIndex (step sideOff N s ev) \<and> activeIndex (step sideOff N s ev) < N"
    using step_index_range [OF N _ Cons.prems(1,2)] Cons.prems(3) by simp
  then show ?case using Cons.IH [of "step sideOff N s ev"] Cons.prems(3) by simp
qed

theorem activeIndex_in_range_witness:
  "0 \<le> activeIndex (run 340 4 initial
           [Prev, PointerDown False 0 0 0, PointerMove 50 100, PointerMove 0 108, PointerUp 0,
            Frame, Frame, Goto 3, Next]) \<and>
   activeIndex (run 340 4 initial
           [Prev, PointerDown False 0 0 0, PointerMove 50 100, PointerMove 0 108, PointerUp 0,
            Frame, Frame, Goto 3, Next]) < 4"
  using activeIndex_in_range [of 4 initial
           "[Prev, PointerDown False 0 0 0, PointerMove 50 100, PointerMove 0 108, PointerUp 0,
             Frame, Frame, Goto 3, Next]" 340]
  by (simp add: initial_def)

subsection \<open>Release, dead zone and momentum\<close>

lemmas ev_defs = run_def initial_def handlePointerDown_def handlePointerMove_def
  handlePointerUp_def handleFrame_def tick_def setActiveIndex_def setDragX_def
  cancelMomentum_def startMomentum_def Let_def friction_def Math_round_def wrapIndex_def
  js_rem_def nextIndex_def prevIndex_def

lemma setActiveIndex_wrap:
  assumes "0 < N" and "0 \<le> activeIndex s" and "activeIndex s < N"
  shows "activeIndex (setActiveIndex (\<lambda>prev. wrapIndex (prev + d) N) s) = (activeIndex s + d) mod N"
  using assms by (simp add: setActiveIndex_index wrapIndex_mod)

lemma tickRounded_exact: "tickRounded (\<lambda>x. x) sideOff N p s = tick sideOff N p s"
  by (simp add: tickRounded_def tick_def friction_def Let_def)

lemma pow2_powr: "pow2 k = 2 powr of_int k"
proof (cases "0 \<le> k")
  case True
  then have "(2::real) powr of_int k = 2 powr real (nat k)" by simp
  also have "\<dots> = 2 ^ nat k" by (simp add: powr_realpow)
  finally show ?thesis using True by (simp add: pow2_def)
next
  case False
  then have "(2::real) powr of_int k = 2 powr - real (nat (- k))" by simp
  also have "\<dots> = 1 / 2 ^ nat (- k)" by (simp add: powr_minus powr_realpow divide_inverse)
  finally show ?thesis using False by (simp add: pow2_def)
qed

lemma binary64_binade:
  assumes "pow2 e \<le> \<bar>x\<bar>" and "\<bar>x\<bar> < pow2 (e + 1)" and "- 1022 \<le> e"
  shows "binary64 x = pow2 (e - 52) * of_int (roundTiesToEven (x / pow2 (e - 52)))"
proof -
  have pos: "0 < \<bar>x\<bar>"
    using assms(1) by (smt (verit) pow2_powr powr_gt_zero)
  have "\<lfloor>log 2 \<bar>x\<bar>\<rfloor> = e"
    using assms(1,2) pos by (simp add: floor_log_eq_powr_iff pow2_powr)
  with pos assms(3) show ?thesis
    by (simp add: binary64_def Let_def max_def)
qed

lemma binary64_friction: "binary64 0.93 = 8376695306909123 / 9007199254740992"
  using binary64_binade [of "- 1" "0.93"]
  by (simp add: roundTiesToEven_def pow2_def)

lemma binary64_first_velocity: "binary64 (100 * (8376695306909123 / 9007199254740992)) = 93"
  using binary64_binade [of 6 "100 * (8376695306909123 / 9007199254740992)"]
  by (simp add: roundTiesToEven_def pow2_def)

lemma binary64_first_offset: "binary64 (26 + 93) = 119"
  using binary64_binade [of 6 "26 + 93"]
  by (simp add: roundTiesToEven_def pow2_def)

lemma binary64_035: "binary64 0.35 = 3152519739159347 / 9007199254740992"
  using binary64_binade [of "- 2" "0.35"]
  by (simp add: roundTiesToEven_def pow2_def)

lemma binary64_threshold_desktop: "binary64 (340 * (3152519739159347 / 9007199254740992)) = 8373880557142015 / 70368744177664"
  using binary64_binade [of 6 "340 * (3152519739159347 / 9007199254740992)"]
  by (simp add: roundTiesToEven_def pow2_def)

lemma binary64_quotient: "binary64 (- 119 / 340) = - (3152519739159347 / 9007199254740992)"
  using binary64_binade [of "- 2" "- 119 / 340"]
  by (simp add: roundTiesToEven_def pow2_def)


lemma binary64_threshold_mobile:
  "binary64 (220 * (3152519739159347 / 9007199254740992)) = 77"
  using binary64_binade [of 6 "220 * (3152519739159347 / 9007199254740992)"]
  by (simp add: roundTiesToEven_def pow2_def)

lemma binary64_threshold_tablet:
  "binary64 (270 * (3152519739159347 / 9007199254740992)) = 189 / 2"
  using binary64_binade [of 6 "270 * (3152519739159347 / 9007199254740992)"]
  by (simp add: roundTiesToEven_def pow2_def)

lemma first_frame_velocity: "binary64 (100 * binary64 0.93) = 93"
  by (simp only: binary64_friction binary64_first_velocity)

lemma threshold_desktop:
  "binary64 (340 * binary64 0.35) = 8373880557142015 / 70368744177664"
  by (simp only: binary64_035 binary64_threshold_desktop)

lemma threshold_mobile: "binary64 (220 * binary64 0.35) = 77"
  by (simp only: binary64_035 binary64_threshold_mobile)

lemma threshold_tablet: "binary64 (270 * binary64 0.35) = 189 / 2"
  by (simp only: binary64_035 binary64_threshold_tablet)

text \<open>
  C3 as the code has it, in the arithmetic of the program: every literal and every
  product, sum and quotient below is rounded by \<open>rnd\<close>. One frame multiplies the
  velocity by 0.93 and adds it to the running offset. If the offset is then beyond
  \<open>sideOff * 0.35\<close> as the program computes it, the loop stops, the drag offset is 0
  and the index has moved by \<open>Math_round (- offset / sideOff)\<close> steps modulo \<open>N\<close>: no
  step at all when the quotient rounds to 0, and more than one when the offset is
  large. Otherwise, if the velocity is below 0.4, the loop stops, the drag offset is 0
  and the index moves by one step, to the next card for a negative offset and to the
  previous one for a positive offset, exactly when the offset is beyond
  \<open>sideOff * 0.25\<close>. Otherwise the frame stores the offset and requests the next frame.
  In doubles the product \<open>sideOff * 0.35\<close> is 77 and 94.5 for the side offsets 220 and
  270, and the double below 119 for 340 (lemmas \<open>threshold_mobile\<close>,
  \<open>threshold_tablet\<close>, \<open>threshold_desktop\<close>), so that on the desktop layout a
  running offset of exactly 119 stops the loop, as the witness shows.
\<close>

theorem tick_behaviour:
  assumes "1 \<le> N" and "0 \<le> activeIndex s" and "activeIndex s < N" and "0 < sideOff"
  shows "let vel = rnd (v * rnd 0.93); offset = rnd (off + vel);
             s' = tickRounded rnd sideOff N (v, off) s in
     (if \<bar>offset\<bar> > rnd (sideOff * rnd 0.35)
      then momentum s' = None \<and> dragX s' = 0 \<and>
           activeIndex s' = (activeIndex s + Math_round (rnd (- offset / sideOff))) mod N
      else if \<bar>vel\<bar> < rnd 0.4
      then momentum s' = None \<and> dragX s' = 0 \<and>
           activeIndex s' =
             (if \<bar>offset\<bar> > rnd (sideOff * rnd 0.25)
              then (activeIndex s + (if offset < 0 then 1 else - 1)) mod N
              else activeIndex s)
      else momentum s' = Some (vel, offset) \<and> dragX s' = offset \<and>
           activeIndex s' = activeIndex s)"
proof -
  from assms have N: "0 < N" by simp
  show ?thesis
    using assms(2,3)
    by (simp add: tickRounded_def Let_def setDragX_def setActiveIndex_wrap [OF N])
qed

theorem tick_behaviour_witness:
  "binary64 (340 * binary64 0.35) < 119 \<and>
   binary64 (26 + binary64 (100 * binary64 0.93)) = 119 \<and>
   momentum (tickRounded binary64 340 4 (100, 26) initial) = None \<and>
   dragX (tickRounded binary64 340 4 (100, 26) initial) = 0 \<and>
   activeIndex (tickRounded binary64 340 4 (100, 26) initial) = activeIndex initial"
proof -
  have range: "(1::int) \<le> 4" "0 \<le> activeIndex initial" "activeIndex initial < 4" "(0::real) < 340"
    by (simp_all add: initial_def)
  note t = tick_behaviour [OF range, of binary64 100 26,
      unfolded Let_def first_frame_velocity binary64_first_offset threshold_desktop
        binary64_quotient]
  have thr: "binary64 (340 * binary64 0.35) < 119"
    unfolding threshold_desktop by simp
  have off: "binary64 (26 + binary64 (100 * binary64 0.93)) = 119"
    by (simp only: first_frame_velocity binary64_first_offset)
  from t have "momentum (tickRounded binary64 340 4 (100, 26) initial) = None \<and>
      dragX (tickRounded binary64 340 4 (100, 26) initial) = 0 \<and>
      activeIndex (tickRounded binary64 340 4 (100, 26) initial) = activeIndex initial"
    by (simp add: Math_round_def initial_def)
  with thr off show ?thesis by simp
qed

text \<open>
  C3 as stated fails: the loop stops on the 35% condition and the index stays where
  it was, on neither neighbour, because the offset rounds to 0 steps (line 649).
\<close>

theorem tick_unchanged_counterexample:
  "\<bar>130 + 10 * 0.93\<bar> > (340::real) * 0.35 \<and>
   momentum (tick 340 4 (10, 130) initial) = None \<and>
   activeIndex (tick 340 4 (10, 130) initial) \<noteq> (activeIndex initial + 1) mod 4 \<and>
   activeIndex (tick 340 4 (10, 130) initial) \<noteq> (activeIndex initial - 1) mod 4"
  by (simp add: ev_defs)

text \<open>The same frame in the doubles of the program: it stops with the index unchanged.\<close>

lemma binary64_slow_velocity:
  "binary64 (10 * binary64 0.93) = 2617717283409101 / 281474976710656"
  unfolding binary64_friction
  using binary64_binade [of 3 "10 * (8376695306909123 / 9007199254740992)"]
  by (simp add: roundTiesToEven_def pow2_def)

lemma binary64_slow_offset:
  "binary64 (130 + 2617717283409101 / 281474976710656) = 2450591515987149 / 17592186044416"
  using binary64_binade [of 7 "130 + 2617717283409101 / 281474976710656"]
  by (simp add: roundTiesToEven_def pow2_def)

lemma binary64_slow_quotient:
  "binary64 (- (2450591515987149 / 17592186044416) / 340)
     = - (7380605036384825 / 18014398509481984)"
  using binary64_binade [of "- 2" "- (2450591515987149 / 17592186044416) / 340"]
  by (simp add: roundTiesToEven_def pow2_def)

lemma tick_unchanged_in_doubles:
  "momentum (tickRounded binary64 340 4 (10, 130) initial) = None \<and>
   activeIndex (tickRounded binary64 340 4 (10, 130) initial) = activeIndex initial"
  unfolding tickRounded_def Let_def fst_conv snd_conv binary64_slow_velocity binary64_slow_offset
    threshold_desktop binary64_slow_quotient
  by (simp add: Math_round_def initial_def setDragX_def)

text \<open>
  C4: a captured drag released with a velocity of at most 2 moves the index by one
  step modulo \<open>N\<close> when the displacement is beyond 25% of \<open>sideOff\<close> (to the next
  card when the pointer went left, to the previous one when it went right) and leaves
  it otherwise; the drag offset is 0 and no frame is requested. A drag in progress has
  no frame pending (\<open>dragging_no_momentum\<close> below).
\<close>

theorem slow_release:
  assumes "1 \<le> N" and "0 \<le> activeIndex s" and "activeIndex s < N"
    and "dragging s" and "captured s" and "\<bar>velocity s\<bar> \<le> 2" and "momentum s = None"
  shows "let totalDX = x - startX s; s' = handlePointerUp sideOff N x s in
     activeIndex s' =
       (if \<bar>totalDX\<bar> > sideOff * 0.25
        then (activeIndex s + (if totalDX < 0 then 1 else - 1)) mod N
        else activeIndex s) \<and>
     dragX s' = 0 \<and> momentum s' = None"
proof -
  from assms have N: "0 < N" by simp
  have idx: "activeIndex (s\<lparr>dragging := False\<rparr>) = activeIndex s" by simp
  show ?thesis
    using assms(2-)
    by (simp add: handlePointerUp_def Let_def setDragX_def setActiveIndex_index wrapIndex_mod [OF N])
      (simp add: setActiveIndex_def Let_def cancelMomentum_def setDragX_def)
qed


theorem slow_release_witness:
  "activeIndex (handlePointerUp 340 4 100
      (run 340 4 initial [PointerDown False 0 0 0, PointerMove 100 1000])) = (0 - 1) mod 4 \<and>
   dragX (handlePointerUp 340 4 100
      (run 340 4 initial [PointerDown False 0 0 0, PointerMove 100 1000])) = 0 \<and>
   momentum (handlePointerUp 340 4 100
      (run 340 4 initial [PointerDown False 0 0 0, PointerMove 100 1000])) = None"
  using slow_release [of 4 "run 340 4 initial [PointerDown False 0 0 0, PointerMove 100 1000]"
      100 340]
  by (simp add: run_def initial_def handlePointerDown_def handlePointerMove_def
      cancelMomentum_def setDragX_def Let_def)

lemma run_append: "run sideOff N s (xs @ ys) = run sideOff N (run sideOff N s xs) ys"
  by (simp add: run_def)

lemma moves_in_deadzone:
  assumes "dragging s" and "\<not> captured s" and "\<forall>m\<in>set moves. \<bar>fst m - startX s\<bar> \<le> 5"
  shows "run sideOff N s (map (\<lambda>m. PointerMove (fst m) (snd m)) moves) = s"
  using assms
proof (induction moves)
  case Nil
  then show ?case by (simp add: run_def)
next
  case (Cons m moves)
  then have "handlePointerMove (fst m) (snd m) s = s"
    by (simp add: handlePointerMove_def Let_def)
  with Cons show ?case by (simp add: run_def)
qed

lemma pointerMove_keeps:
  "dragging (handlePointerMove x t s) = dragging s \<and>
   startX (handlePointerMove x t s) = startX s \<and>
   momentum (handlePointerMove x t s) = momentum s \<and>
   activeIndex (handlePointerMove x t s) = activeIndex s"
  by (simp add: handlePointerMove_def Let_def setDragX_def)

lemma moves_keep:
  "dragging (run sideOff N s (map (\<lambda>m. PointerMove (fst m) (snd m)) moves)) = dragging s \<and>
   startX (run sideOff N s (map (\<lambda>m. PointerMove (fst m) (snd m)) moves)) = startX s \<and>
   momentum (run sideOff N s (map (\<lambda>m. PointerMove (fst m) (snd m)) moves)) = momentum s \<and>
   activeIndex (run sideOff N s (map (\<lambda>m. PointerMove (fst m) (snd m)) moves)) = activeIndex s"
  unfolding run_def
  by (induction moves arbitrary: s) (simp_all add: pointerMove_keeps)

lemma deadzone_below_threshold: "5 < sideOffset (useLayoutConfig bp) * 0.25"
  by (cases bp) simp_all

text \<open>
  C5 as the code has it: a gesture released within 5 pixels of its start leaves the
  index unchanged, the drag offset at 0 and no frame requested, provided that no
  pointer move was more than 5 pixels away from the start (the pointer is never
  captured) or that the velocity at release is at most 2 (the displacement is below
  25% of \<open>sideOff\<close> in every layout).
\<close>

theorem deadzone_gesture:
  assumes "sideOff = sideOffset (useLayoutConfig bp)"
    and "\<bar>x1 - x0\<bar> \<le> 5"
    and "(\<forall>m\<in>set moves. \<bar>fst m - x0\<bar> \<le> 5) \<or>
         \<bar>velocity (run sideOff N s
            (PointerDown False 0 x0 t0 # map (\<lambda>m. PointerMove (fst m) (snd m)) moves))\<bar> \<le> 2"
  shows "activeIndex (run sideOff N s
            (PointerDown False 0 x0 t0 # map (\<lambda>m. PointerMove (fst m) (snd m)) moves @ [PointerUp x1]))
           = activeIndex s \<and>
         dragX (run sideOff N s
            (PointerDown False 0 x0 t0 # map (\<lambda>m. PointerMove (fst m) (snd m)) moves @ [PointerUp x1]))
           = 0 \<and>
         momentum (run sideOff N s
            (PointerDown False 0 x0 t0 # map (\<lambda>m. PointerMove (fst m) (snd m)) moves @ [PointerUp x1]))
           = None"
proof -
  let ?d = "handlePointerDown False 0 x0 t0 s"
  let ?ms = "map (\<lambda>m. PointerMove (fst m) (snd m)) moves"
  let ?pre = "run sideOff N ?d ?ms"
  have d: "dragging ?d" "\<not> captured ?d" "startX ?d = x0" "momentum ?d = None"
    "activeIndex ?d = activeIndex s"
    by (simp_all add: handlePointerDown_def cancelMomentum_def)
  have pre: "dragging ?pre" "startX ?pre = x0" "momentum ?pre = None"
    "activeIndex ?pre = activeIndex s"
    using moves_keep [of sideOff N ?d moves] d by simp_all
  have pre_eq: "run sideOff N s (PointerDown False 0 x0 t0 # ?ms) = ?pre"
    by (simp add: run_def)
  have final: "run sideOff N s (PointerDown False 0 x0 t0 # ?ms @ [PointerUp x1])
        = handlePointerUp sideOff N x1 ?pre"
    by (simp add: run_def)
  have small: "\<not> \<bar>x1 - x0\<bar> > sideOff * 0.25"
    using assms(1,2) deadzone_below_threshold [of bp] by simp
  from assms(3) have "\<not> captured ?pre \<or> \<bar>velocity ?pre\<bar> \<le> 2"
  proof
    assume "\<forall>m\<in>set moves. \<bar>fst m - x0\<bar> \<le> 5"
    then have "?pre = ?d"
      using moves_in_deadzone [of ?d moves sideOff N] d by simp
    with d show ?thesis by simp
  next
    assume "\<bar>velocity (run sideOff N s (PointerDown False 0 x0 t0 # ?ms))\<bar> \<le> 2"
    then show ?thesis by (simp only: pre_eq) simp
  qed
  then have "activeIndex (handlePointerUp sideOff N x1 ?pre) = activeIndex s \<and>
      dragX (handlePointerUp sideOff N x1 ?pre) = 0 \<and>
      momentum (handlePointerUp sideOff N x1 ?pre) = None"
    using pre small
    by (auto simp add: handlePointerUp_def Let_def setDragX_def)
  then show ?thesis by (simp only: final)
qed

theorem deadzone_gesture_witness:
  "activeIndex (run 340 4 initial
      (PointerDown False 0 10 0 # map (\<lambda>m. PointerMove (fst m) (snd m)) [(60, 500), (13, 9000)]
         @ [PointerUp 12]))
     = activeIndex initial \<and>
   dragX (run 340 4 initial
      (PointerDown False 0 10 0 # map (\<lambda>m. PointerMove (fst m) (snd m)) [(60, 500), (13, 9000)]
         @ [PointerUp 12]))
     = 0 \<and>
   momentum (run 340 4 initial
      (PointerDown False 0 10 0 # map (\<lambda>m. PointerMove (fst m) (snd m)) [(60, 500), (13, 9000)]
         @ [PointerUp 12]))
     = None"
  using deadzone_gesture [of 340 Desktop 12 10 "[(60, 500), (13, 9000)]" 4 initial 0]
  by (simp add: run_def initial_def handlePointerDown_def handlePointerMove_def
      cancelMomentum_def setDragX_def Let_def)

text \<open>
  C5 as stated fails: the pointer goes 50 pixels to the right, which captures it,
  comes back to the start within 8 ms and is released there, with displacement 0 and
  a velocity of 100 pixels per frame to the left. The momentum loop then moves the
  index from 0 to 1 in its second frame.
\<close>

theorem release_near_start_counterexample:
  "\<bar>0 - (0::real)\<bar> \<le> 5 \<and>
   activeIndex (run 340 4 initial
      [PointerDown False 0 0 0, PointerMove 50 100, PointerMove 0 108, PointerUp 0, Frame, Frame])
     \<noteq> activeIndex initial"
  by (simp add: ev_defs)



lemma dragging_no_momentum_step:
  assumes "dragging s \<longrightarrow> momentum s = None"
  shows "dragging (step sideOff N s ev) \<longrightarrow> momentum (step sideOff N s ev) = None"
proof (cases ev)
  case Frame
  with assms show ?thesis
    by (cases "dragging s")
      (auto simp add: handleFrame_def tick_def Let_def setDragX_def setActiveIndex_def
        cancelMomentum_def split: option.splits)
next
  case (PointerUp x)
  with assms show ?thesis
    by (simp add: handlePointerUp_def Let_def setDragX_def setActiveIndex_def
        cancelMomentum_def startMomentum_def)
qed (use assms in \<open>auto simp add: handlePointerDown_def handlePointerMove_def Let_def
      setDragX_def setActiveIndex_def cancelMomentum_def\<close>)

lemma dragging_no_momentum:
  "dragging (run sideOff N initial evs) \<longrightarrow> momentum (run sideOff N initial evs) = None"
proof (induction evs rule: rev_induct)
  case Nil
  show ?case by (simp add: run_def initial_def)
next
  case (snoc ev evs)
  then show ?case
    using dragging_no_momentum_step [of "run sideOff N initial evs" sideOff N ev]
    by (simp add: run_def)
qed

subsection \<open>Decay of the velocity and termination of the loop\<close>

lemma handleFrame_idle: "momentum s = None \<Longrightarrow> handleFrame sideOff N s = s"
  by (simp add: handleFrame_def)

lemma frames_idle: "momentum s = None \<Longrightarrow> frames sideOff N k s = s"
  by (induction k) (simp_all add: handleFrame_idle)

lemma tick_momentum:
  "momentum (tick sideOff N p s) = None \<or>
   (\<exists>off. momentum (tick sideOff N p s) = Some (fst p * friction, off) \<and>
      \<not> \<bar>fst p * friction\<bar> < 0.4)"
  by (simp add: tick_def Let_def setDragX_def)

lemma frames_momentum:
  assumes "momentum s = Some (v, off)"
  shows "momentum (frames sideOff N k s) = None \<or>
         (\<exists>off'. momentum (frames sideOff N k s) = Some (friction ^ k * v, off') \<and>
            (0 < k \<longrightarrow> \<not> \<bar>friction ^ k * v\<bar> < 0.4))"
  using assms
proof (induction k arbitrary: s v off)
  case 0
  then show ?case by simp
next
  case (Suc k)
  have hf: "handleFrame sideOff N s = tick sideOff N (v, off) s"
    using Suc.prems by (simp add: handleFrame_def)
  consider (stop) "momentum (tick sideOff N (v, off) s) = None"
    | (go) off' where "momentum (tick sideOff N (v, off) s) = Some (v * friction, off')"
        "\<not> \<bar>v * friction\<bar> < 0.4"
    using tick_momentum [of sideOff N "(v, off)" s] by auto
  then show ?case
  proof cases
    case stop
    then show ?thesis by (simp add: hf frames_idle)
  next
    case go
    have eq: "friction ^ k * (v * friction) = friction ^ Suc k * v" by simp
    have fr: "frames sideOff N (Suc k) s = frames sideOff N k (tick sideOff N (v, off) s)"
      by (simp add: hf)
    from Suc.IH [OF go(1)] show ?thesis
    proof
      assume "momentum (frames sideOff N k (tick sideOff N (v, off) s)) = None"
      then show ?thesis by (simp only: fr) simp
    next
      assume "\<exists>off'. momentum (frames sideOff N k (tick sideOff N (v, off) s))
                  = Some (friction ^ k * (v * friction), off') \<and>
                (0 < k \<longrightarrow> \<not> \<bar>friction ^ k * (v * friction)\<bar> < 0.4)"
      then obtain off' where
        m: "momentum (frames sideOff N k (tick sideOff N (v, off) s))
              = Some (friction ^ Suc k * v, off')"
        and b: "0 < k \<longrightarrow> \<not> \<bar>friction ^ Suc k * v\<bar> < 0.4"
        unfolding eq by blast
      have "\<not> \<bar>friction ^ Suc k * v\<bar> < 0.4"
      proof (cases k)
        case 0
        with go(2) show ?thesis by (simp add: mult.commute)
      next
        case (Suc j)
        with b show ?thesis by blast
      qed
      with m show ?thesis unfolding fr by blast
    qed
  qed
qed

lemma friction_pow_bound:
  assumes "34 * \<bar>v\<bar> \<le> real k"
  shows "\<bar>friction ^ k * v\<bar> < 0.4"
proof -
  have b: "1 + real k * (7 / 93) \<le> (1 + 7 / 93) ^ k"
    by (rule Bernoulli_inequality) simp
  have inv: "friction ^ k * (1 + 7 / 93) ^ k = 1"
    by (simp add: friction_def flip: power_mult_distrib)
  have pos: "0 < friction ^ k" by (simp add: friction_def)
  have "friction ^ k * (1 + real k * (7 / 93)) \<le> friction ^ k * (1 + 7 / 93) ^ k"
    using b pos by (simp only: mult_le_cancel_left_pos)
  then have le: "friction ^ k * (1 + real k * (7 / 93)) \<le> 1" by (simp only: inv)
  have "\<bar>v\<bar> < 0.4 * (1 + real k * (7 / 93))" using assms by simp
  then have "friction ^ k * \<bar>v\<bar> < friction ^ k * (0.4 * (1 + real k * (7 / 93)))"
    using pos by (simp only: mult_less_cancel_left_pos)
  also have "\<dots> = 0.4 * (friction ^ k * (1 + real k * (7 / 93)))" by simp
  also have "\<dots> \<le> 0.4 * 1" using le by simp
  finally show ?thesis using pos by (simp add: abs_mult)
qed

lemma coast_stops: "momentum (coast sideOff N s) = None"
proof (induction sideOff N s rule: coast.induct)
  case (1 sideOff N s)
  show ?case
  proof (cases "momentum s")
    case None
    then show ?thesis by (subst coast.simps) simp
  next
    case (Some p)
    with 1 show ?thesis by (subst coast.simps) simp
  qed
qed

text \<open>
  C8: from a release velocity \<open>v\<close> above 2 in magnitude, the velocity after \<open>k\<close>
  frames is \<open>0.93 ^ k * v\<close> for as long as the loop runs; its magnitude falls strictly
  and its sign is that of \<open>v\<close>; it is below 0.4 after any \<open>k \<ge> 34 * \<bar>v\<bar>\<close> frames, by
  which time the loop has stopped; and \<open>coast\<close>, the loop run to its end, returns with
  no frame requested.
\<close>

theorem momentum_decay:
  assumes "\<bar>v\<bar> > 2" and "momentum s = Some (v, off)"
  shows "(\<forall>k. 34 * \<bar>v\<bar> \<le> real k \<longrightarrow>
            \<bar>0.93 ^ k * v\<bar> < 0.4 \<and> momentum (frames sideOff N k s) = None) \<and>
         (\<forall>k. \<bar>0.93 ^ Suc k * v\<bar> < \<bar>0.93 ^ k * v\<bar> \<and> sgn (0.93 ^ k * v) = sgn v) \<and>
         (\<forall>k v' off'. momentum (frames sideOff N k s) = Some (v', off') \<longrightarrow> v' = 0.93 ^ k * v) \<and>
         momentum (coast sideOff N s) = None"
proof (intro conjI allI impI)
  fix k
  assume k: "34 * \<bar>v\<bar> \<le> real k"
  then show small: "\<bar>0.93 ^ k * v\<bar> < 0.4"
    using friction_pow_bound [of v k] by (simp add: friction_def)
  from k assms(1) have "0 < k" by (cases k) auto
  with small frames_momentum [OF assms(2), of sideOff N k]
  show "momentum (frames sideOff N k s) = None"
    by (auto simp add: friction_def)
next
  fix k
  have "0 < (0.93::real) ^ k" by simp
  moreover from assms(1) have "0 < \<bar>v\<bar>" by simp
  ultimately have "0 < 0.93 ^ k * \<bar>v\<bar>" by simp
  then have "0.93 * (0.93 ^ k * \<bar>v\<bar>) < 1 * (0.93 ^ k * \<bar>v\<bar>)"
    by (simp only: mult_less_cancel_right_pos) simp
  then show "\<bar>0.93 ^ Suc k * v\<bar> < \<bar>0.93 ^ k * v\<bar>"
    by (simp add: abs_mult)
  show "sgn (0.93 ^ k * v) = sgn v"
    by (simp add: sgn_mult)
next
  fix k v' off'
  assume "momentum (frames sideOff N k s) = Some (v', off')"
  with frames_momentum [OF assms(2), of sideOff N k]
  show "v' = 0.93 ^ k * v" by (auto simp add: friction_def)
next
  show "momentum (coast sideOff N s) = None" by (rule coast_stops)
qed


theorem momentum_decay_witness:
  "\<bar>0.93 ^ 102 * (3::real)\<bar> < 0.4 \<and>
   momentum (frames 340 4 102 (startMomentum 3 initial)) = None \<and>
   \<bar>0.93 ^ Suc 0 * (3::real)\<bar> < \<bar>0.93 ^ 0 * 3\<bar> \<and>
   sgn (0.93 ^ 5 * (3::real)) = sgn 3 \<and>
   momentum (coast 340 4 (startMomentum 3 initial)) = None"
proof -
  have h1: "\<bar>3::real\<bar> > 2" by simp
  have h2: "momentum (startMomentum 3 initial) = Some (3, 0)"
    by (simp add: startMomentum_def initial_def)
  note t = momentum_decay [OF h1 h2, of 340 4]
  have k: "34 * \<bar>3::real\<bar> \<le> real 102" by simp
  from t k have "\<bar>0.93 ^ 102 * (3::real)\<bar> < 0.4 \<and>
      momentum (frames 340 4 102 (startMomentum 3 initial)) = None"
    by blast
  moreover from t have "\<bar>0.93 ^ Suc 0 * (3::real)\<bar> < \<bar>0.93 ^ 0 * 3\<bar>" by blast
  moreover from t have "sgn (0.93 ^ 5 * (3::real)) = sgn 3" by blast
  moreover from t have "momentum (coast 340 4 (startMomentum 3 initial)) = None" by blast
  ultimately show ?thesis by blast
qed

subsection \<open>The render with an empty list\<close>

lemma renderCarousel_in_range:
  assumes "0 \<le> active" and "active < int (length items)"
  shows "renderCarousel items active =
           Inr (renderSlots items active, ''url('' @ bg (items ! nat active) @ '')'')"
  using assms by (simp add: renderCarousel_def renderBackground_def Let_def)

text \<open>
  C7: with an empty list of cards the item count is 1 and no card is rendered, so
  nothing divides by zero; the active index is 0, no index of the empty list, and
  the background layer reads \<^verbatim>\<open>items[0].bg\<close>: the render throws.
\<close>

theorem renderCarousel_empty:
  "itemCount ([] :: card_item list) = 1 \<and> renderSlots [] 0 = [] \<and>
   renderCarousel [] (activeIndex initial) = Inl TypeError"
  by (simp add: itemCount_def renderSlots_def renderCarousel_def renderBackground_def initial_def)

subsection \<open>The theme transition\<close>

lemmas overlay_defs = overlayRun_def mount_def overlayEffect_def overlayCleanup_def
  flipCallback_def unmount_def onComplete_def rerender_def elapse_def Let_def

lemma flipped_once_step:
  "flipped_once s \<Longrightarrow> flipped_once (overlayStep targetTheme s ev)"
  by (cases ev)
    (auto simp add: flipped_once_def elapse_def Let_def flipCallback_def onComplete_def
      unmount_def overlayCleanup_def overlayEffect_def rerender_def split: option.splits if_splits)

lemma flipped_once_run:
  "flipped_once s \<Longrightarrow> flipped_once (overlayRun targetTheme s evs)"
  unfolding overlayRun_def
  by (induction evs arbitrary: s) (simp_all add: flipped_once_step)

text \<open>
  What holds of the overlay whatever happens: the mode is flipped at most once. With no
  render of the parent in between, the flip is at 350 ms and the completion at
  1600 ms. An overlay removed before 350 ms never flips the mode.
\<close>

lemma flip_at_most_once:
  "length (flippedAt (overlayRun targetTheme (mount current) evs)) \<le> 1"
proof -
  have "flipped_once (mount current)"
    by (simp add: flipped_once_def mount_def overlayEffect_def)
  then have "flipped_once (overlayRun targetTheme (mount current) evs)"
    by (rule flipped_once_run)
  then show ?thesis by (simp add: flipped_once_def split: if_splits)
qed

lemma undisturbed_timeline:
  "flippedAt (overlayRun targetTheme (mount current) [Elapse t]) = (if 350 \<le> t then [350] else []) \<and>
   persisted (overlayRun targetTheme (mount current) [Elapse t])
     = (if 350 \<le> t then targetTheme else current) \<and>
   completedAt (overlayRun targetTheme (mount current) [Elapse t])
     = (if 1600 \<le> t then [1600] else [])"
  by (simp add: overlay_defs)

lemma torn_down_step:
  "torn_down s \<Longrightarrow>
     torn_down (overlayStep targetTheme s ev) \<and>
     flippedAt (overlayStep targetTheme s ev) = flippedAt s \<and>
     persisted (overlayStep targetTheme s ev) = persisted s"
  by (cases ev)
    (simp_all add: torn_down_def elapse_def Let_def unmount_def overlayCleanup_def rerender_def)

lemma torn_down_run:
  "torn_down s \<Longrightarrow>
     flippedAt (overlayRun targetTheme s evs) = flippedAt s \<and>
     persisted (overlayRun targetTheme s evs) = persisted s"
  unfolding overlayRun_def
proof (induction evs arbitrary: s)
  case Nil
  then show ?case by simp
next
  case (Cons ev evs)
  from torn_down_step [OF Cons.prems, of targetTheme ev] Cons.IH [of "overlayStep targetTheme s ev"]
  show ?case by simp
qed

lemma teardown_before_flip:
  assumes "d < 350"
  shows "flippedAt (overlayRun targetTheme (mount current) (Elapse d # Unmount # evs)) = [] \<and>
         persisted (overlayRun targetTheme (mount current) (Elapse d # Unmount # evs)) = current"
proof -
  let ?s = "unmount (elapse targetTheme d (mount current))"
  have s: "torn_down ?s" "flippedAt ?s = []" "persisted ?s = current"
    using assms by (simp_all add: torn_down_def overlay_defs)
  have "overlayRun targetTheme (mount current) (Elapse d # Unmount # evs)
          = overlayRun targetTheme ?s evs"
    by (simp add: overlayRun_def)
  with torn_down_run [OF s(1), of targetTheme evs] s(2,3) show ?thesis by simp
qed

text \<open>
  C6: a render of the parent during the transition runs the effect again and sets
  both timeouts anew. After a render at 100 ms the mode is still not flipped at
  350 ms and flips at 450 ms; after a render at 350 ms, which the flip itself causes
  since the parent reads the theme (line 852), completion is signalled at 1950 ms and
  not at 1600 ms.
\<close>

theorem rerender_restarts_timers:
  "flippedAt (overlayRun (targetOf Light) (mount Light) [Elapse 100, Rerender, Elapse 250]) = [] \<and>
   flippedAt (overlayRun (targetOf Light) (mount Light) [Elapse 100, Rerender, Elapse 350]) = [450] \<and>
   completedAt (overlayRun (targetOf Light) (mount Light) [Elapse 350, Rerender, Elapse 1250]) = [] \<and>
   completedAt (overlayRun (targetOf Light) (mount Light) [Elapse 350, Rerender, Elapse 1600])
     = [1950]"
  by (simp add: overlay_defs targetOf_def)

end
